theory Spec2Isabelle
  imports Main "HOL-Library.Char_ord"
begin

section \<open>Data model of \<^verbatim>\<open>collect-symbols.c\<close>\<close>

text \<open>
  The token kinds of \<^verbatim>\<open>token_type_t\<close>, in the order of the enum.
\<close>

datatype token_type_t =
    TOKEN_ERROR
  | TOKEN_BLOCK
  | TOKEN_WORD
  | TOKEN_DQUOTED
  | TOKEN_SQUOTED
  | TOKEN_ASSIGN
  | TOKEN_SEMICOLON
  | TOKEN_COLON
  | TOKEN_OTHER

text \<open>
  A \<^verbatim>\<open>token_t\<close> holds the kind and a \<^verbatim>\<open>char *\<close> into the ring buffer.
  The pointer is modelled by the NUL-terminated text it points to when the token is saved,
  \<open>None\<close> standing for \<^verbatim>\<open>NULL\<close>. The bytes of the ring buffer itself are not
  part of the model: a unit whose words together exceed the 16 KiB of the buffer would
  overwrite the text of its own earlier tokens, and that aliasing is outside what is
  verified here.
\<close>

record token_t =
  type :: token_type_t
  val :: "string option"

text \<open>The sizes fixed by the source.\<close>

definition READBUF_SIZE :: nat where "READBUF_SIZE = 8 * 1024"
definition RINGBUF_SIZE :: int where "RINGBUF_SIZE = 16 * 1024"
definition MAX_TOKEN :: int where "MAX_TOKEN = 512"
definition MAX_TOKENS :: int where "MAX_TOKENS = 64"

text \<open>
  \<^verbatim>\<open>input_t\<close>: \<open>fd\<close> is the descriptor, modelled by the bytes it has yet to
  deliver; \<open>buf\<close> holds the bytes of the last successful \<^verbatim>\<open>read\<close> (the
  first \<open>len\<close> bytes of the C array, the only ones the code looks at); \<open>rd\<close> is the
  read offset (set to 0 and 1 and incremented, never negative) and \<open>nxt\<close> the
  pushed-back byte, \<open>CHR 0x00\<close> when there is none.
\<close>

record input_t =
  fd :: "char list"
  buf :: "char list"
  len :: int
  rd :: nat
  nxt :: char

text \<open>
  \<^verbatim>\<open>ringbuf_t\<close>: only the write offset decides where a token is saved and
  whether saving fails. The value of \<^verbatim>\<open>errno\<close> is not modelled; a failure shows in
  the value returned.
\<close>

record ringbuf_t =
  wr :: int

section \<open>Character stream\<close>

definition input_init :: "char list \<Rightarrow> input_t" where
  "input_init bytes = \<lparr>fd = bytes, buf = [], len = 0, rd = 0, nxt = CHR 0x00\<rparr>"

text \<open>
  \<^verbatim>\<open>in->len = read(in->fd, in->buf, sizeof(in->buf))\<close>: the descriptor hands over
  at most \<open>READBUF_SIZE\<close> of its remaining bytes; with none left it returns 0 and
  leaves the buffer alone, on every later call too.
\<close>

definition sys_read :: "input_t \<Rightarrow> input_t" where
  "sys_read inp =
     (let data = take READBUF_SIZE (fd inp)
      in inp\<lparr>fd := drop READBUF_SIZE (fd inp),
              buf := (if data = [] then buf inp else data),
              len := int (length data)\<rparr>)"

definition input_read :: "input_t \<Rightarrow> char \<times> input_t" where
  "input_read inp =
     (if nxt inp \<noteq> CHR 0x00 then (nxt inp, inp\<lparr>nxt := CHR 0x00\<rparr>)
      else if len inp \<le> int (rd inp) then
        (let in1 = sys_read inp
         in if len in1 > 0 then (buf in1 ! 0, in1\<lparr>rd := 1\<rparr>)
            else (CHR 0x00, in1))
      else (buf inp ! rd inp, inp\<lparr>rd := rd inp + 1\<rparr>))"

text \<open>
  \<^verbatim>\<open>input_pushback\<close> returns 0 on success and -1 (with \<^verbatim>\<open>errno = EBUSY\<close>)
  when a byte is already pending.
\<close>

definition input_pushback :: "input_t \<Rightarrow> char \<Rightarrow> int \<times> input_t" where
  "input_pushback inp ch =
     (if nxt inp = CHR 0x00 then (0, inp\<lparr>nxt := ch\<rparr>)
      else (-1, inp))"

text \<open>
  The number of bytes the stream can still deliver; every loop over the input that stops at
  the byte 0 terminates because a non-zero byte read makes it smaller.
\<close>

definition remaining :: "input_t \<Rightarrow> nat" where
  "remaining inp =
     length (fd inp) + nat (len inp - int (rd inp)) + (if nxt inp = CHR 0x00 then 0 else 1)"

lemma remaining_sys_read:
  assumes "fd inp \<noteq> []"
  shows "length (fd (sys_read inp)) + nat (len (sys_read inp) - 1) < length (fd inp)"
proof -
  have "length (drop 8192 xs) + nat (int (length (take 8192 xs)) - 1) < length xs"
    if "xs \<noteq> []" for xs :: "char list"
    using that by (cases xs) (auto simp: min_def)
  from this [OF assms] show ?thesis
    by (simp add: sys_read_def Let_def READBUF_SIZE_def)
qed

lemma sys_read_eof:
  "fd inp = [] \<Longrightarrow> sys_read inp = inp\<lparr>len := 0\<rparr>"
  by (simp add: sys_read_def)

lemma sys_read_len_pos: "0 < len (sys_read inp) \<longleftrightarrow> fd inp \<noteq> []"
  by (simp add: sys_read_def Let_def READBUF_SIZE_def)

lemma sys_read_nxt: "nxt (sys_read inp) = nxt inp"
  by (simp add: sys_read_def Let_def)

lemma remaining_advance:
  "\<not> l \<le> int r \<Longrightarrow> nat (l - (1 + int r)) < nat (l - int r)"
  by arith

lemma remaining_read_less:
  assumes "fst (input_read inp) \<noteq> CHR 0x00"
  shows "remaining (snd (input_read inp)) < remaining inp"
proof (cases "fd inp = []")
  case True
  with assms show ?thesis
    by (simp add: input_read_def remaining_def sys_read_eof Let_def remaining_advance
        split: if_splits)
next
  case False
  from remaining_sys_read [OF this] show ?thesis
    by (simp add: input_read_def remaining_def sys_read_len_pos sys_read_nxt Let_def False
        remaining_advance)
qed

lemma remaining_read_le: "remaining (snd (input_read inp)) \<le> remaining inp"
proof (cases "fst (input_read inp) = CHR 0x00")
  case True
  show ?thesis
  proof (cases "fd inp = []")
    case True
    then show ?thesis
      by (simp add: input_read_def remaining_def sys_read_eof Let_def
          order.strict_implies_order [OF remaining_advance])
  next
    case False
    from remaining_sys_read [OF this] show ?thesis
      by (simp add: input_read_def remaining_def sys_read_len_pos sys_read_nxt Let_def False
          order.strict_implies_order [OF remaining_advance])
  qed
next
  case False
  then show ?thesis
    by (simp add: order.strict_implies_order [OF remaining_read_less])
qed

function input_discard_whitespace :: "input_t \<Rightarrow> input_t" where
  "input_discard_whitespace inp =
     (let ch = fst (input_read inp); in1 = snd (input_read inp)
      in if ch = CHR '' '' \<or> ch = CHR 0x09 \<or> ch = CHR 0x0A
         then input_discard_whitespace in1
         else snd (input_pushback in1 ch))"
  by pat_completeness auto
termination
  by (relation "measure remaining") (auto intro: remaining_read_less)

function input_discard_line :: "input_t \<Rightarrow> input_t" where
  "input_discard_line inp =
     (let ch = fst (input_read inp); in1 = snd (input_read inp)
      in if ch \<noteq> CHR 0x0A \<and> ch \<noteq> CHR 0x00 then input_discard_line in1 else in1)"
  by pat_completeness auto
termination
  by (relation "measure remaining") (auto intro: remaining_read_less)

text \<open>
  \<^verbatim>\<open>input_discard_quoted\<close>: a backslash makes the loop read one more byte and
  ignore it. The result is 0, or -1 (\<^verbatim>\<open>EINVAL\<close>) when the byte that ended the loop
  is not the quote.
\<close>

function input_discard_quoted :: "input_t \<Rightarrow> char \<Rightarrow> int \<times> input_t" where
  "input_discard_quoted inp quote =
     (let ch = fst (input_read inp); in1 = snd (input_read inp)
      in if ch \<noteq> quote \<and> ch \<noteq> CHR 0x00 then
           (if ch = CHR 0x5C then input_discard_quoted (snd (input_read in1)) quote
            else input_discard_quoted in1 quote)
         else if ch \<noteq> quote then (-1, in1)
         else (0, in1))"
  by pat_completeness auto
termination
proof (relation "measure (\<lambda>(inp, quote). remaining inp)", goal_cases)
  case 1
  show ?case by simp
next
  case (2 inp quote ch in1)
  have "remaining (snd (input_read (snd (input_read inp)))) \<le> remaining (snd (input_read inp))"
    by (rule remaining_read_le)
  moreover from 2 have "remaining (snd (input_read inp)) < remaining inp"
    by (auto intro: remaining_read_less)
  ultimately show ?case using 2 by simp
next
  case (3 inp quote ch in1)
  then show ?case by (auto intro: remaining_read_less)
qed

text \<open>
  \<^verbatim>\<open>input_discard_block\<close>: the loop runs while \<open>level > 0\<close> and has no case for
  the byte 0, so it need not return; not returning is the value \<open>None\<close>. The level is
  an unbounded integer here (the C \<^verbatim>\<open>int\<close> would take \<open>2^31\<close> nested brackets to
  overflow).
\<close>

partial_function (option) discard_block_loop ::
  "char \<Rightarrow> char \<Rightarrow> int \<Rightarrow> input_t \<Rightarrow> (int \<times> input_t) option" where
  "discard_block_loop beg endc level inp =
     (if level > 0 then
        (let ch = fst (input_read inp); in1 = snd (input_read inp)
         in if ch = CHR 0x22 \<or> ch = CHR 0x27 then
              (if fst (input_discard_quoted in1 ch) \<noteq> 0
               then Some (-1, snd (input_discard_quoted in1 ch))
               else discard_block_loop beg endc level (snd (input_discard_quoted in1 ch)))
            else if ch = endc then discard_block_loop beg endc (level - 1) in1
            else if ch = beg then discard_block_loop beg endc (level + 1) in1
            else discard_block_loop beg endc level in1)
      else if level = 0 then Some (0, inp)
      else Some (-1, inp))"

definition input_discard_block :: "input_t \<Rightarrow> char \<Rightarrow> (int \<times> input_t) option" where
  "input_discard_block inp beg =
     (if beg = CHR ''{'' then discard_block_loop beg CHR ''}'' 1 inp
      else if beg = CHR ''['' then discard_block_loop beg CHR '']'' 1 inp
      else if beg = CHR ''('' then discard_block_loop beg CHR '')'' 1 inp
      else Some (0, inp))"

section \<open>Token ring buffer\<close>

definition ringbuf_init :: ringbuf_t where
  "ringbuf_init = \<lparr>wr = 0\<rparr>"

text \<open>
  \<^verbatim>\<open>ringbuf_save(rb, token, len)\<close>: \<open>token\<close> is the text before the terminating
  NUL. The token goes to the write offset, or to the start of the buffer when fewer than
  \<open>len + 1\<close> bytes are left; the pointer returned is modelled by the \<open>len\<close> bytes
  copied, \<^verbatim>\<open>NULL\<close> (\<^verbatim>\<open>ENOSPC\<close>) by \<open>None\<close>.
\<close>

definition ringbuf_save :: "ringbuf_t \<Rightarrow> string \<Rightarrow> int \<Rightarrow> string option \<times> ringbuf_t" where
  "ringbuf_save rb token len0 =
     (let l = (if len0 < 0 then int (length token) else len0);
          n0 = RINGBUF_SIZE - 1 - wr rb;
          n = (if n0 < l + 1 then RINGBUF_SIZE - 1 else n0);
          off = (if n0 < l + 1 then 0 else wr rb)
      in if n \<ge> l + 1 then (Some (take (nat l) token), rb\<lparr>wr := off + l + 1\<rparr>)
         else (None, rb))"

section \<open>Tokenizer\<close>

text \<open>
  \<^verbatim>\<open>WORD_CHAR(c)\<close>. The order on \<open>char\<close> is the one of the byte values; on the
  ranges compared here it agrees with the order of a signed \<^verbatim>\<open>char\<close>.
\<close>

definition WORD_CHAR :: "char \<Rightarrow> bool" where
  "WORD_CHAR c \<longleftrightarrow>
     (CHR ''a'' \<le> c \<and> c \<le> CHR ''z'') \<or>
     (CHR ''A'' \<le> c \<and> c \<le> CHR ''Z'') \<or>
     (CHR ''0'' \<le> c \<and> c \<le> CHR ''9'') \<or>
     (c = CHR ''_'' \<or> c = CHR ''$'')"

text \<open>
  \<^verbatim>\<open>input_collect_word\<close>: \<open>wbuf\<close> is \<^verbatim>\<open>buf[0..n)\<close>, so \<open>n\<close> is its
  length. The result is the saved word, the stream and the ring buffer; \<open>None\<close> is
  \<^verbatim>\<open>NULL\<close>.
\<close>

function collect_word_loop ::
  "input_t \<Rightarrow> ringbuf_t \<Rightarrow> string \<Rightarrow> string option \<times> input_t \<times> ringbuf_t" where
  "collect_word_loop inp rb wbuf =
     (if int (length wbuf) < MAX_TOKEN - 1 then
        (let ch = fst (input_read inp); in1 = snd (input_read inp)
         in if WORD_CHAR ch then collect_word_loop in1 rb (wbuf @ [ch])
            else (fst (ringbuf_save rb wbuf (int (length wbuf))),
                  snd (input_pushback in1 ch),
                  snd (ringbuf_save rb wbuf (int (length wbuf)))))
      else (None, inp, rb))"
  by pat_completeness auto
termination
  by (relation "measure (\<lambda>(inp, rb, wbuf). nat (MAX_TOKEN - 1) - length wbuf)")
     (auto simp: MAX_TOKEN_def)

definition input_collect_word ::
  "input_t \<Rightarrow> ringbuf_t \<Rightarrow> string option \<times> input_t \<times> ringbuf_t" where
  "input_collect_word inp rb = collect_word_loop inp rb []"

text \<open>
  \<^verbatim>\<open>collect_tokens\<close>: \<open>tokens\<close> is \<^verbatim>\<open>tokens[0..n)\<close>, so \<open>n\<close> is its length,
  \<^verbatim>\<open>tokens[n-1]\<close> its last element and \<^verbatim>\<open>n--\<close> drops it. The result is the value
  returned (-1 or the number of tokens), the tokens, the stream and the ring buffer. The
  bytes of the default case go to \<^verbatim>\<open>stdout\<close>, which is not tracked here. The call does
  not return when \<^verbatim>\<open>input_discard_block\<close> does not.
\<close>

partial_function (option) collect_loop ::
  "int \<Rightarrow> input_t \<Rightarrow> ringbuf_t \<Rightarrow> token_t list \<Rightarrow> int \<Rightarrow>
     (int \<times> token_t list \<times> input_t \<times> ringbuf_t) option" where
  "collect_loop ntoken inp rb tokens has_paren =
     (if int (length tokens) < ntoken then
        (let ch = fst (input_read inp); in1 = snd (input_read inp)
         in if ch = CHR '';'' then
              Some (int (length tokens) + 1,
                    tokens @ [\<lparr>type = TOKEN_SEMICOLON, val = fst (ringbuf_save rb '';'' 1)\<rparr>],
                    in1, snd (ringbuf_save rb '';'' 1))
            else if ch = CHR ''#'' then
              collect_loop ntoken (input_discard_line in1) rb tokens has_paren
            else if ch = CHR '' '' \<or> ch = CHR 0x09 then
              collect_loop ntoken (input_discard_whitespace in1) rb tokens has_paren
            else if ch = CHR 0x0A then
              collect_loop ntoken in1 rb tokens has_paren
            else if ch = CHR ''{'' \<or> ch = CHR ''('' \<or> ch = CHR ''['' then
              (case input_discard_block in1 ch of
                 None \<Rightarrow> None
               | Some r \<Rightarrow>
                   if fst r \<noteq> 0 then Some (-1, tokens, snd r, rb)
                   else if ch = CHR ''('' \<and> int (length tokens) > 0 \<and>
                           type (last tokens) = TOKEN_WORD \<and>
                           val (last tokens) = Some ''__attribute__''
                   then collect_loop ntoken (snd r) rb (butlast tokens) has_paren
                   else
                     (let v = [ch];
                          tokens1 = tokens @ [\<lparr>type = TOKEN_BLOCK, val = fst (ringbuf_save rb v 1)\<rparr>];
                          rb1 = snd (ringbuf_save rb v 1)
                      in if v ! 0 = CHR ''('' then collect_loop ntoken (snd r) rb1 tokens1 1
                         else if v ! 0 = CHR ''{'' \<and> has_paren \<noteq> 0
                           then Some (int (length tokens1), tokens1, snd r, rb1)
                         else collect_loop ntoken (snd r) rb1 tokens1 has_paren))
            else if ch = CHR 0x00 then Some (int (length tokens), tokens, in1, rb)
            else if WORD_CHAR ch then
              (let w = input_collect_word (snd (input_pushback in1 ch)) rb
               in if fst w \<noteq> None
                  then collect_loop ntoken (fst (snd w)) (snd (snd w))
                         (tokens @ [\<lparr>type = TOKEN_WORD, val = fst w\<rparr>]) has_paren
                  else Some (-1, tokens, fst (snd w), snd (snd w)))
            else if ch = CHR ''='' then
              collect_loop ntoken in1 (snd (ringbuf_save rb ''='' 1))
                (tokens @ [\<lparr>type = TOKEN_ASSIGN, val = fst (ringbuf_save rb ''='' 1)\<rparr>]) has_paren
            else if ch = CHR ''*'' then collect_loop ntoken in1 rb tokens has_paren
            else collect_loop ntoken in1 rb tokens has_paren)
      else Some (-1, tokens, inp, rb))"

definition collect_tokens ::
  "input_t \<Rightarrow> ringbuf_t \<Rightarrow> int \<Rightarrow> (int \<times> token_t list \<times> input_t \<times> ringbuf_t) option" where
  "collect_tokens inp rb ntoken = collect_loop ntoken inp rb [] 0"

section \<open>Symbol recognizer\<close>

text \<open>
  \<^verbatim>\<open>MATCHING_TOKEN(n, type, val)\<close>: the kind is the one asked for and the text, when
  one is asked for, is equal.
\<close>

definition MATCHING_TOKEN :: "token_t list \<Rightarrow> int \<Rightarrow> token_type_t \<Rightarrow> string \<Rightarrow> bool" where
  "MATCHING_TOKEN tokens n ty v \<longleftrightarrow>
     type (tokens ! nat n) = ty \<and> (v = [] \<or> val (tokens ! nat n) = Some v)"

record sym_flags =
  has_paren :: int
  has_curly :: int
  has_bracket :: int
  has_assign :: int

text \<open>One round of the loop over the tokens, and the loop.\<close>

definition scan_token :: "token_t list \<Rightarrow> sym_flags \<Rightarrow> nat \<Rightarrow> sym_flags" where
  "scan_token tokens f i =
     (if MATCHING_TOKEN tokens (int i) TOKEN_BLOCK ''('' then f\<lparr>has_paren := 1\<rparr>
      else if MATCHING_TOKEN tokens (int i) TOKEN_BLOCK ''{'' then f\<lparr>has_curly := 1\<rparr>
      else if MATCHING_TOKEN tokens (int i) TOKEN_BLOCK ''['' then f\<lparr>has_bracket := 1\<rparr>
      else if MATCHING_TOKEN tokens (int i) TOKEN_ASSIGN [] then f\<lparr>has_assign := 1 + int i\<rparr>
      else f)"

definition scan_tokens :: "token_t list \<Rightarrow> nat \<Rightarrow> sym_flags" where
  "scan_tokens tokens ntoken =
     foldl (scan_token tokens)
       \<lparr>has_paren = 0, has_curly = 0, has_bracket = 0, has_assign = 0\<rparr> [0..<ntoken]"

text \<open>
  \<^verbatim>\<open>symbol_from_tokens(tokens, ntoken)\<close>, with \<open>ntoken\<close> the length of the list. The
  result is the \<^verbatim>\<open>char *\<close> returned: the text pointer of a token, or \<^verbatim>\<open>NULL\<close>. The
  caller passes \<open>ntoken > 0\<close>.
\<close>

definition symbol_from_tokens :: "token_t list \<Rightarrow> string option" where
  "symbol_from_tokens tokens =
     (let ntoken = int (length tokens);
          f = scan_tokens tokens (length tokens);
          last_ix = ntoken - 1;
          i = has_assign f - 1
      in if type (tokens ! 0) \<noteq> TOKEN_WORD then None
         else if MATCHING_TOKEN tokens 0 TOKEN_WORD ''typedef'' \<or>
                 MATCHING_TOKEN tokens 0 TOKEN_WORD ''static'' then None
         else if last_ix > 2 \<and>
                 MATCHING_TOKEN tokens last_ix TOKEN_SEMICOLON [] \<and>
                 MATCHING_TOKEN tokens (last_ix - 1) TOKEN_BLOCK ''('' \<and>
                 MATCHING_TOKEN tokens (last_ix - 2) TOKEN_WORD []
           then val (tokens ! nat (last_ix - 2))
         else if (last_ix > 1 \<and> has_assign f \<noteq> 0) \<and>
                 i > 0 \<and> MATCHING_TOKEN tokens (i - 1) TOKEN_WORD []
           then val (tokens ! nat (i - 1))
         else if (last_ix > 1 \<and> has_assign f \<noteq> 0) \<and>
                 i > 1 \<and>
                 MATCHING_TOKEN tokens (i - 1) TOKEN_BLOCK ''['' \<and>
                 MATCHING_TOKEN tokens (i - 2) TOKEN_WORD []
           then val (tokens ! nat (i - 2))
         else if (last_ix > 1 \<and> has_paren f = 0 \<and> has_curly f = 0) \<and>
                 MATCHING_TOKEN tokens last_ix TOKEN_SEMICOLON [] \<and>
                 MATCHING_TOKEN tokens (last_ix - 1) TOKEN_WORD []
           then val (tokens ! nat (last_ix - 1))
         else None)"

section \<open>Symbol table\<close>

text \<open>
  \<^verbatim>\<open>symtab_t\<close> is a growing array of owned strings with its length \<open>nsym\<close>: a list.
  Allocation is taken to succeed; when it fails the program exits through
  \<^verbatim>\<open>fatal_error\<close>.
\<close>

type_synonym symtab_t = "string list"

definition symtab_init :: symtab_t where
  "symtab_init = []"

text \<open>The search loop of \<^verbatim>\<open>symtab_add\<close>: true when it returns early.\<close>

fun symtab_find :: "symtab_t \<Rightarrow> string \<Rightarrow> bool" where
  "symtab_find [] symb = False"
| "symtab_find (s # syms) symb = (if s = symb then True else symtab_find syms symb)"

definition symtab_add :: "symtab_t \<Rightarrow> string \<Rightarrow> symtab_t" where
  "symtab_add st symb = (if symtab_find st symb then st else st @ [symb])"

section \<open>Output formatter\<close>

text \<open>
  \<open>out\<close> is what has been written to the stream so far; each \<^verbatim>\<open>fprintf\<close> appends.
\<close>

fun dump_plain :: "symtab_t \<Rightarrow> string \<Rightarrow> string" where
  "dump_plain [] out = out"
| "dump_plain (s # syms) out = dump_plain syms (out @ s @ [CHR 0x0A])"

fun dump_global :: "symtab_t \<Rightarrow> string \<Rightarrow> string" where
  "dump_global [] out = out"
| "dump_global (s # syms) out = dump_global syms (out @ ''        '' @ s @ '';'' @ [CHR 0x0A])"

definition symtab_dump :: "symtab_t \<Rightarrow> int \<Rightarrow> string \<Rightarrow> string" where
  "symtab_dump st gnuld out =
     (if gnuld = 0 then dump_plain st out
      else
        (let out1 = out @ ''{'' @ [CHR 0x0A];
             out2 = (if int (length st) > 0
                     then dump_global st (out1 @ ''    global:'' @ [CHR 0x0A])
                     else out1);
             out3 = out2 @ ''    local:'' @ [CHR 0x0A];
             out4 = out3 @ ''        *;'' @ [CHR 0x0A]
         in out4 @ ''};'' @ [CHR 0x0A]))"

section \<open>Scanning one file\<close>

text \<open>
  \<^verbatim>\<open>extract_symbols\<close>: \<open>bytes\<close> is what the preprocessor writes to the pipe,
  \<open>re\<close> the compiled pattern as a predicate (\<open>None\<close> when no pattern was given). The
  loop runs while \<^verbatim>\<open>collect_tokens\<close> returns a positive count.
\<close>

partial_function (option) extract_loop ::
  "(string \<Rightarrow> bool) option \<Rightarrow> symtab_t \<Rightarrow> input_t \<Rightarrow> ringbuf_t \<Rightarrow> symtab_t option" where
  "extract_loop re st inp rb =
     (case collect_tokens inp rb MAX_TOKENS of
        None \<Rightarrow> None
      | Some r \<Rightarrow>
          if fst r > 0 then
            (case symbol_from_tokens (fst (snd r)) of
               None \<Rightarrow> extract_loop re st (fst (snd (snd r))) (snd (snd (snd r)))
             | Some symb \<Rightarrow>
                 if (case re of None \<Rightarrow> True | Some m \<Rightarrow> m symb)
                 then extract_loop re (symtab_add st symb) (fst (snd (snd r))) (snd (snd (snd r)))
                 else extract_loop re st (fst (snd (snd r))) (snd (snd (snd r))))
          else Some st)"

definition extract_symbols ::
  "string \<Rightarrow> (string \<Rightarrow> bool) option \<Rightarrow> symtab_t \<Rightarrow> symtab_t option" where
  "extract_symbols bytes re st = extract_loop re st (input_init bytes) ringbuf_init"

text \<open>
  End of stream: nothing is pushed back, the buffer is used up and the descriptor has
  nothing more to deliver.
\<close>

definition at_eof :: "input_t \<Rightarrow> bool" where
  "at_eof inp \<longleftrightarrow> nxt inp = CHR 0x00 \<and> fd inp = [] \<and> len inp \<le> int (rd inp)"

declare discard_block_loop.simps [code]
declare collect_loop.simps [code]
declare extract_loop.simps [code]

section \<open>Pushback of the byte 0\<close>

text \<open>
  C9. Pushing back the byte 0 stores nothing: the stream is the same afterwards, so the
  next \<^verbatim>\<open>input_read\<close> reads what it would have read without the pushback. When the
  slot is free the call reports success (0), the slot is still free, and a further pushback
  of any byte succeeds as well.
\<close>

theorem pushback_zero_stores_nothing:
  "snd (input_pushback inp (CHR 0x00)) = inp \<and>
   input_read (snd (input_pushback inp (CHR 0x00))) = input_read inp \<and>
   (nxt inp = CHR 0x00 \<longrightarrow>
      fst (input_pushback inp (CHR 0x00)) = 0 \<and>
      nxt (snd (input_pushback inp (CHR 0x00))) = CHR 0x00 \<and>
      (\<forall>ch. fst (input_pushback (snd (input_pushback inp (CHR 0x00))) ch) = 0))"
proof -
  have same: "snd (input_pushback inp (CHR 0x00)) = inp"
    by (cases "nxt inp = CHR 0x00") (simp_all add: input_pushback_def)
  show ?thesis
    unfolding same by (simp add: input_pushback_def)
qed

theorem pushback_zero_stores_nothing_witness:
  "nxt (input_init ''ab'') = CHR 0x00 \<and>
   fst (input_pushback (input_init ''ab'') (CHR 0x00)) = 0 \<and>
   fst (input_read (snd (input_pushback (input_init ''ab'') (CHR 0x00)))) = CHR ''a'' \<and>
   fst (input_pushback (snd (input_pushback (input_init ''ab'') (CHR 0x00))) (CHR ''z'')) = 0"
proof -
  have h: "nxt (input_init ''ab'') = CHR 0x00"
    by (simp add: input_init_def)
  have r: "fst (input_read (input_init ''ab'')) = CHR ''a''"
    by (simp add: input_init_def input_read_def sys_read_def READBUF_SIZE_def)
  from pushback_zero_stores_nothing [of "input_init ''ab''"] h r show ?thesis
    by (simp add: input_pushback_def input_init_def)
qed

section \<open>Discarding a block at the end of the stream\<close>

lemma input_read_at_eof:
  "at_eof inp \<Longrightarrow> input_read inp = (CHR 0x00, inp\<lparr>len := 0\<rparr>)"
  by (simp add: at_eof_def input_read_def sys_read_eof)

lemma at_eof_after_read: "at_eof inp \<Longrightarrow> at_eof (inp\<lparr>len := 0\<rparr>)"
  by (simp add: at_eof_def)

text \<open>
  Whenever the loop returns, it was not started at the end of the stream with a positive
  level: there every round reads the byte 0, which is neither a quote nor one of the two
  brackets, and leaves the level and the stream as they were.
\<close>

lemma discard_block_loop_returns:
  assumes "discard_block_loop beg endc level inp = Some r"
  shows "\<not> (at_eof inp \<and> 0 < level \<and> beg \<noteq> CHR 0x00 \<and> endc \<noteq> CHR 0x00)"
proof (rule discard_block_loop.raw_induct
    [where P = "\<lambda>b e l i r. \<not> (at_eof i \<and> 0 < l \<and> b \<noteq> CHR 0x00 \<and> e \<noteq> CHR 0x00)",
      OF _ assms], goal_cases)
  case (1 f b e l i y)
  show ?case
  proof
    assume h: "at_eof i \<and> 0 < l \<and> b \<noteq> CHR 0x00 \<and> e \<noteq> CHR 0x00"
    then have rd: "input_read i = (CHR 0x00, i\<lparr>len := 0\<rparr>)"
      by (simp add: input_read_at_eof)
    from 1(2) h rd have "f b e l (i\<lparr>len := 0\<rparr>) = Some y"
      by (auto simp: Let_def split: if_splits)
    from 1(1) [OF this] h at_eof_after_read [of i] show False
      by simp
  qed
qed

lemma discard_block_loop_at_eof:
  "at_eof inp \<Longrightarrow> 0 < level \<Longrightarrow> beg \<noteq> CHR 0x00 \<Longrightarrow> endc \<noteq> CHR 0x00 \<Longrightarrow>
     discard_block_loop beg endc level inp = None"
  using discard_block_loop_returns [of beg endc level inp]
  by (cases "discard_block_loop beg endc level inp") auto

lemma input_discard_block_at_eof:
  "at_eof inp \<Longrightarrow> beg = CHR ''{'' \<or> beg = CHR ''['' \<or> beg = CHR ''('' \<Longrightarrow>
     input_discard_block inp beg = None"
  by (auto simp: input_discard_block_def discard_block_loop_at_eof)

text \<open>
  C3. The claim is that \<^verbatim>\<open>input_discard_block\<close> terminates with an error when the
  stream ends while the nesting level is positive. The code does not: at the end of the
  stream with a positive level the loop never returns, for either bracket and any level.
  The \<^verbatim>\<open>return -1\<close> after the loop is never reached with a positive level, and
  \<^verbatim>\<open>input_discard_quoted\<close> shows the test for the byte 0 that this loop lacks.
\<close>

theorem discard_block_hangs_at_eof:
  assumes "at_eof inp" and "0 < level"
    and "beg = CHR ''{'' \<and> endc = CHR ''}'' \<or> beg = CHR ''['' \<and> endc = CHR '']'' \<or>
         beg = CHR ''('' \<and> endc = CHR '')''"
  shows "discard_block_loop beg endc level inp = None \<and> input_discard_block inp beg = None"
  using assms by (auto simp: discard_block_loop_at_eof input_discard_block_at_eof)

theorem discard_block_hangs_at_eof_witness:
  "at_eof (input_init []) \<and> (0::int) < 1 \<and>
   discard_block_loop (CHR ''['') (CHR '']'') 1 (input_init []) = None \<and>
   input_discard_block (input_init []) (CHR ''['') = None"
proof -
  have e: "at_eof (input_init [])"
    by (simp add: at_eof_def input_init_def)
  from discard_block_hangs_at_eof [OF e, of 1 "CHR ''[''" "CHR '']''"] e show ?thesis
    by simp
qed

text \<open>
  On the stream \<^verbatim>\<open>int a[\<close> the tokenizer reads two words, enters the block and
  never returns; neither does the scan of the file.
\<close>

lemma collect_tokens_unclosed_block:
  "collect_tokens (input_init ''int a['') ringbuf_init MAX_TOKENS = None"
  by (simp add: collect_tokens_def collect_loop.simps input_init_def ringbuf_init_def
      MAX_TOKENS_def input_read_def sys_read_def READBUF_SIZE_def Let_def input_pushback_def
      WORD_CHAR_def input_collect_word_def ringbuf_save_def RINGBUF_SIZE_def MAX_TOKEN_def
      input_discard_block_at_eof at_eof_def)

lemma extract_symbols_unclosed_block:
  "extract_symbols ''int a['' None symtab_init = None"
  by (simp add: extract_symbols_def extract_loop.simps collect_tokens_unclosed_block)

section \<open>Symbol table\<close>

lemma symtab_find_iff: "symtab_find st s \<longleftrightarrow> s \<in> set st"
  by (induction st) auto

lemma symtab_fold_first: "foldl symtab_add [] names = rev (remdups (rev names))"
proof (induction names rule: rev_induct)
  case Nil
  show ?case by simp
next
  case (snoc x xs)
  then show ?case
    by (simp add: symtab_add_def symtab_find_iff)
qed

text \<open>
  C5. After any sequence of \<^verbatim>\<open>symtab_add\<close> calls on the empty table, no two entries
  are equal, and the table is the sequence of names with each name kept at its first
  occurrence only (\<open>remdups\<close> keeps last occurrences, hence the two reversals). Adding a
  name that is in the table leaves the table as it is; a new name goes to the end.
\<close>

theorem symtab_add_no_duplicates:
  "distinct (foldl symtab_add symtab_init names) \<and>
   foldl symtab_add symtab_init names = rev (remdups (rev names)) \<and>
   (s \<in> set st \<longrightarrow> symtab_add st s = st) \<and>
   (s \<notin> set st \<longrightarrow> symtab_add st s = st @ [s])"
  by (simp add: symtab_init_def symtab_fold_first symtab_add_def symtab_find_iff)

theorem symtab_add_no_duplicates_witness:
  "foldl symtab_add symtab_init [''f'', ''g'', ''f'', ''h'', ''g''] = [''f'', ''g'', ''h''] \<and>
   ''g'' \<in> set [''f'', ''g'', ''h''] \<and>
   symtab_add [''f'', ''g'', ''h''] ''g'' = [''f'', ''g'', ''h''] \<and>
   ''x'' \<notin> set [''f'', ''g'', ''h''] \<and>
   symtab_add [''f'', ''g'', ''h''] ''x'' = [''f'', ''g'', ''h'', ''x'']"
  using symtab_add_no_duplicates [of "[''f'', ''g'', ''f'', ''h'', ''g'']" "''g''" "[''f'', ''g'', ''h'']"]
    symtab_add_no_duplicates [of "[]" "''x''" "[''f'', ''g'', ''h'']"]
  by simp

section \<open>Version-script output\<close>

lemma dump_global_eq:
  "dump_global st out = out @ concat (map (\<lambda>s. ''        '' @ s @ '';\<newline>'') st)"
  by (induction st arbitrary: out) simp_all

text \<open>
  C6. With \<open>gnuld\<close> set, an empty table gives the opening line and the closing block
  only, with no \<^verbatim>\<open>global:\<close> line; a non-empty table gives the \<^verbatim>\<open>global:\<close> line and
  one indented line per symbol, in table order, before the same closing block.
\<close>

theorem symtab_dump_version_script:
  assumes "gnuld \<noteq> 0"
  shows "(st = [] \<longrightarrow>
            symtab_dump st gnuld out =
              out @ ''{\<newline>    local:\<newline>        *;\<newline>};\<newline>'') \<and>
         (st \<noteq> [] \<longrightarrow>
            symtab_dump st gnuld out =
              out @ ''{\<newline>    global:\<newline>'' @
              concat (map (\<lambda>s. ''        '' @ s @ '';\<newline>'') st) @
              ''    local:\<newline>        *;\<newline>};\<newline>'')"
  using assms by (simp add: symtab_dump_def dump_global_eq)

theorem symtab_dump_version_script_witness:
  "(1::int) \<noteq> 0 \<and>
   symtab_dump [] 1 [] = ''{\<newline>    local:\<newline>        *;\<newline>};\<newline>'' \<and>
   symtab_dump [''f'', ''g''] 1 [] =
     ''{\<newline>    global:\<newline>        f;\<newline>        g;\<newline>    local:\<newline>        *;\<newline>};\<newline>''"
proof -
  have h: "(1::int) \<noteq> 0" by simp
  from symtab_dump_version_script [OF h, of "[]" "[]"]
       symtab_dump_version_script [OF h, of "[''f'', ''g'']" "[]"]
  show ?thesis by simp
qed

section \<open>Running the model on concrete streams\<close>

text \<open>
  The definitions to unfold when a stream, the tokenizer or the recognizer is evaluated
  on concrete bytes.
\<close>

lemmas stream_eval = input_init_def input_read_def sys_read_def READBUF_SIZE_def
  input_pushback_def Let_def

lemmas token_eval = collect_tokens_def collect_loop.simps ringbuf_init_def MAX_TOKENS_def
  WORD_CHAR_def input_collect_word_def ringbuf_save_def RINGBUF_SIZE_def MAX_TOKEN_def
  input_discard_block_def discard_block_loop.simps

lemmas symbol_eval = symbol_from_tokens_def scan_tokens_def scan_token_def
  MATCHING_TOKEN_def upt_rec

lemmas extract_eval = extract_symbols_def extract_loop.simps symtab_add_def symtab_init_def

text \<open>The examples of the specification.\<close>

lemma extract_symbols_examples:
  "extract_symbols ''int foo(int x);'' None symtab_init = Some [''foo'']"
  "extract_symbols ''static int bar(void) { return 1; }'' None symtab_init = Some []"
  "extract_symbols ''int g_counter = 0;'' None symtab_init = Some [''g_counter'']"
  "extract_symbols ''int table[10] = {0};'' None symtab_init = Some [''table'']"
  "extract_symbols ''extern int x;'' None symtab_init = Some [''x'']"
  "extract_symbols ''typedef struct { int a; } foo_t;'' None symtab_init = Some []"
  by (simp_all add: extract_eval stream_eval token_eval symbol_eval)

section \<open>The loop over the tokens of a unit\<close>

lemma scan_tokens_0:
  "scan_tokens tokens 0 = \<lparr>has_paren = 0, has_curly = 0, has_bracket = 0, has_assign = 0\<rparr>"
  by (simp add: scan_tokens_def)

lemma scan_tokens_Suc:
  "scan_tokens tokens (Suc n) = scan_token tokens (scan_tokens tokens n) n"
  by (simp add: scan_tokens_def)

lemma has_assign_scan_token:
  "has_assign (scan_token tokens f i) =
     (if type (tokens ! i) = TOKEN_ASSIGN then 1 + int i else has_assign f)"
  by (simp add: scan_token_def MATCHING_TOKEN_def)



text \<open>
  Every Assign token overwrites \<open>has_assign\<close>, so after the loop it is one more than
  the index of the last Assign token, and 0 when there is none.
\<close>

lemma has_assign_last:
  "k < n \<Longrightarrow> type (tokens ! k) = TOKEN_ASSIGN \<Longrightarrow>
   (\<forall>j. k < j \<and> j < n \<longrightarrow> type (tokens ! j) \<noteq> TOKEN_ASSIGN) \<Longrightarrow>
   has_assign (scan_tokens tokens n) = 1 + int k"
proof (induction n)
  case 0
  then show ?case by simp
next
  case (Suc n)
  show ?case
  proof (cases "k = n")
    case True
    with Suc.prems show ?thesis
      by (simp add: scan_tokens_Suc has_assign_scan_token)
  next
    case False
    with Suc.prems have "k < n" and "type (tokens ! n) \<noteq> TOKEN_ASSIGN"
      by auto
    with Suc show ?thesis
      by (simp add: scan_tokens_Suc has_assign_scan_token)
  qed
qed

lemma has_assign_cases:
  "has_assign (scan_tokens tokens n) = 0 \<or>
   (\<exists>k<n. has_assign (scan_tokens tokens n) = 1 + int k \<and>
      type (tokens ! k) = TOKEN_ASSIGN \<and>
      (\<forall>j. k < j \<and> j < n \<longrightarrow> type (tokens ! j) \<noteq> TOKEN_ASSIGN))"
proof (induction n)
  case 0
  show ?case by (simp add: scan_tokens_0)
next
  case (Suc n)
  show ?case
  proof (cases "type (tokens ! n) = TOKEN_ASSIGN")
    case True
    then have "has_assign (scan_tokens tokens (Suc n)) = 1 + int n"
      by (simp add: scan_tokens_Suc has_assign_scan_token)
    with True show ?thesis by auto
  next
    case False
    then have eq: "has_assign (scan_tokens tokens (Suc n)) = has_assign (scan_tokens tokens n)"
      by (simp add: scan_tokens_Suc has_assign_scan_token)
    from Suc show ?thesis
    proof
      assume "has_assign (scan_tokens tokens n) = 0"
      with eq show ?thesis by simp
    next
      assume "\<exists>k<n. has_assign (scan_tokens tokens n) = 1 + int k \<and>
        type (tokens ! k) = TOKEN_ASSIGN \<and>
        (\<forall>j. k < j \<and> j < n \<longrightarrow> type (tokens ! j) \<noteq> TOKEN_ASSIGN)"
      then obtain k where k: "k < n" "has_assign (scan_tokens tokens n) = 1 + int k"
        "type (tokens ! k) = TOKEN_ASSIGN"
        "\<forall>j. k < j \<and> j < n \<longrightarrow> type (tokens ! j) \<noteq> TOKEN_ASSIGN"
        by blast
      from k(4) False have "\<forall>j. k < j \<and> j < Suc n \<longrightarrow> type (tokens ! j) \<noteq> TOKEN_ASSIGN"
        by (auto simp: less_Suc_eq)
      with k eq show ?thesis
        by (intro disjI2 exI [of _ k]) simp
    qed
  qed
qed

lemma has_assign_bound: "has_assign (scan_tokens tokens n) \<le> int n"
  using has_assign_cases [of tokens n] by auto



text \<open>
  The units that the statements \<^verbatim>\<open>foo();\<close>, \<^verbatim>\<open>x;\<close> and \<^verbatim>\<open>int a = b = c;\<close> become, and
  what a file made of them yields.
\<close>

lemma collect_tokens_short_units:
  "map_option (\<lambda>r. (fst r, fst (snd r)))
     (collect_tokens (input_init ''foo();'') ringbuf_init MAX_TOKENS) =
   Some (3, [\<lparr>type = TOKEN_WORD, val = Some ''foo''\<rparr>,
             \<lparr>type = TOKEN_BLOCK, val = Some ''(''\<rparr>,
             \<lparr>type = TOKEN_SEMICOLON, val = Some '';''\<rparr>])"
  "map_option (\<lambda>r. (fst r, fst (snd r)))
     (collect_tokens (input_init ''x;'') ringbuf_init MAX_TOKENS) =
   Some (2, [\<lparr>type = TOKEN_WORD, val = Some ''x''\<rparr>,
             \<lparr>type = TOKEN_SEMICOLON, val = Some '';''\<rparr>])"
  "map_option (\<lambda>r. (fst r, fst (snd r)))
     (collect_tokens (input_init ''int a = b = c;'') ringbuf_init MAX_TOKENS) =
   Some (7, [\<lparr>type = TOKEN_WORD, val = Some ''int''\<rparr>,
             \<lparr>type = TOKEN_WORD, val = Some ''a''\<rparr>,
             \<lparr>type = TOKEN_ASSIGN, val = Some ''=''\<rparr>,
             \<lparr>type = TOKEN_WORD, val = Some ''b''\<rparr>,
             \<lparr>type = TOKEN_ASSIGN, val = Some ''=''\<rparr>,
             \<lparr>type = TOKEN_WORD, val = Some ''c''\<rparr>,
             \<lparr>type = TOKEN_SEMICOLON, val = Some '';''\<rparr>])"
  by (simp_all add: stream_eval token_eval)

lemma extract_symbols_short_units:
  "extract_symbols ''foo(); x; int a = b = c;'' None symtab_init = Some [''b'']"
  by (simp add: extract_eval stream_eval token_eval symbol_eval)

section \<open>Function prototypes\<close>

text \<open>
  C1, as amended. The prototype rule is guarded by \<^verbatim>\<open>last > 2\<close>, so it needs at least
  four tokens: when the first token is a Word other than \<^verbatim>\<open>typedef\<close> and
  \<^verbatim>\<open>static\<close>, and the last three tokens are a Word, a \<^verbatim>\<open>(\<close> block and a semicolon
  with at least one token before them, the recognizer returns the pointer of that Word.
\<close>

theorem prototype_rule_four_tokens:
  assumes "pre \<noteq> []"
    and "type (hd pre) = TOKEN_WORD"
    and "val (hd pre) \<noteq> Some ''typedef''" and "val (hd pre) \<noteq> Some ''static''"
    and "type w = TOKEN_WORD"
    and "type b = TOKEN_BLOCK" and "val b = Some ''(''"
    and "type s = TOKEN_SEMICOLON"
  shows "symbol_from_tokens (pre @ [w, b, s]) = val w"
proof -
  let ?ts = "pre @ [w, b, s]"
  from assms(1) have hd0: "?ts ! 0 = hd pre"
    by (cases pre) simp_all
  have n: "int (length ?ts) - 1 > 2"
    using assms(1) by (cases pre) simp_all
  have i1: "?ts ! nat (int (length ?ts) - 1) = s"
    by (simp add: nth_append nat_add_distrib)
  have i2: "?ts ! nat (int (length ?ts) - 1 - 1) = b"
    by (simp add: nth_append nat_add_distrib)
  have i3: "?ts ! nat (int (length ?ts) - 1 - 2) = w"
    by (simp add: nth_append nat_add_distrib)
  show ?thesis
    unfolding symbol_from_tokens_def Let_def MATCHING_TOKEN_def
    using assms n by (simp only: i1 i2 i3 hd0 nat_0) simp
qed

theorem prototype_rule_four_tokens_witness:
  "[\<lparr>type = TOKEN_WORD, val = Some ''int''\<rparr>] \<noteq> [] \<and>
   symbol_from_tokens
     ([\<lparr>type = TOKEN_WORD, val = Some ''int''\<rparr>] @
      [\<lparr>type = TOKEN_WORD, val = Some ''foo''\<rparr>, \<lparr>type = TOKEN_BLOCK, val = Some ''(''\<rparr>,
       \<lparr>type = TOKEN_SEMICOLON, val = Some '';''\<rparr>]) = Some ''foo''"
  using prototype_rule_four_tokens
    [of "[\<lparr>type = TOKEN_WORD, val = Some ''int''\<rparr>]" "\<lparr>type = TOKEN_WORD, val = Some ''foo''\<rparr>"
      "\<lparr>type = TOKEN_BLOCK, val = Some ''(''\<rparr>" "\<lparr>type = TOKEN_SEMICOLON, val = Some '';''\<rparr>"]
  by simp

text \<open>
  C1 as stated fails on the three tokens of \<^verbatim>\<open>foo();\<close>: the prototype rule is skipped,
  there is no Assign token, and the last rule is barred by the \<^verbatim>\<open>(\<close> block.
\<close>

theorem prototype_rule_three_tokens_counterexample:
  "symbol_from_tokens
     [\<lparr>type = TOKEN_WORD, val = Some ''foo''\<rparr>, \<lparr>type = TOKEN_BLOCK, val = Some ''(''\<rparr>,
      \<lparr>type = TOKEN_SEMICOLON, val = Some '';''\<rparr>] = None"
  by (simp add: symbol_eval)

section \<open>Variables with an initializer\<close>

text \<open>
  Where the unit has one Assign token only, the rule does what is said of it: in a unit of
  more than two tokens whose first token is a Word other than \<^verbatim>\<open>typedef\<close> and
  \<^verbatim>\<open>static\<close> and which the prototype rule does not take, the Word before the Assign
  token is returned.
\<close>

lemma assignment_rule_single_assign:
  assumes "2 < length tokens"
    and "type (tokens ! 0) = TOKEN_WORD"
    and "val (tokens ! 0) \<noteq> Some ''typedef''" and "val (tokens ! 0) \<noteq> Some ''static''"
    and "\<not> (3 < length tokens \<and>
             type (tokens ! (length tokens - 1)) = TOKEN_SEMICOLON \<and>
             type (tokens ! (length tokens - 2)) = TOKEN_BLOCK \<and>
             val (tokens ! (length tokens - 2)) = Some ''('' \<and>
             type (tokens ! (length tokens - 3)) = TOKEN_WORD)"
    and "k < length tokens" and "type (tokens ! k) = TOKEN_ASSIGN"
    and "\<forall>j. j < length tokens \<and> j \<noteq> k \<longrightarrow> type (tokens ! j) \<noteq> TOKEN_ASSIGN"
    and "0 < k" and "type (tokens ! (k - 1)) = TOKEN_WORD"
  shows "symbol_from_tokens tokens = val (tokens ! (k - 1))"
proof -
  from assms(8) have later: "\<forall>j. k < j \<and> j < length tokens \<longrightarrow> type (tokens ! j) \<noteq> TOKEN_ASSIGN"
    by auto
  have ha: "has_assign (scan_tokens tokens (length tokens)) = 1 + int k"
    using assms(6,7) later by (rule has_assign_last)
  have i1: "nat (int (length tokens) - 1) = length tokens - 1"
    and i2: "nat (int (length tokens) - 1 - 1) = length tokens - 2"
    and i3: "nat (int (length tokens) - 1 - 2) = length tokens - 3"
    and k1: "nat (1 + int k - 1 - 1) = k - 1"
    using assms(1,9) by simp_all
  have n: "int (length tokens) - 1 > 2 \<longleftrightarrow> 3 < length tokens"
    and m: "int (length tokens) - 1 > 1" and kpos: "1 + int k - 1 > 0" "1 + int k \<noteq> 0"
    using assms(1,9) by auto
  show ?thesis
    unfolding symbol_from_tokens_def Let_def MATCHING_TOKEN_def ha
    using assms(2,3,4,5,10) m kpos by (simp only: i1 i2 i3 k1 n nat_0) auto
qed

text \<open>
  What the tokenizer makes of an initializer that holds a \<^verbatim>\<open>=\<close> of its own.
\<close>

lemma collect_tokens_second_assign:
  "map_option (\<lambda>r. (fst r, fst (snd r)))
     (collect_tokens (input_init ''int le = 1 <= 2;'') ringbuf_init MAX_TOKENS) =
   Some (7, [\<lparr>type = TOKEN_WORD, val = Some ''int''\<rparr>,
             \<lparr>type = TOKEN_WORD, val = Some ''le''\<rparr>,
             \<lparr>type = TOKEN_ASSIGN, val = Some ''=''\<rparr>,
             \<lparr>type = TOKEN_WORD, val = Some ''1''\<rparr>,
             \<lparr>type = TOKEN_ASSIGN, val = Some ''=''\<rparr>,
             \<lparr>type = TOKEN_WORD, val = Some ''2''\<rparr>,
             \<lparr>type = TOKEN_SEMICOLON, val = Some '';''\<rparr>])"
  by (simp add: stream_eval token_eval)

text \<open>
  C2. The claim is that the assignment rule takes the Word before the first Assign token
  of the unit, also when a later Assign token follows, so that \<^verbatim>\<open>int a = b = c;\<close>
  yields \<^verbatim>\<open>a\<close>. The code does not: the loop over the tokens sets \<open>has_assign\<close> anew at
  every Assign token without a test for an earlier one, so the rule works from the last
  Assign token. The seven tokens of \<^verbatim>\<open>int a = b = c;\<close> yield \<^verbatim>\<open>b\<close>, and a
  declaration whose initializer contains a \<^verbatim>\<open>=\<close> exports a token of the initializer
  in place of the variable: \<^verbatim>\<open>int le = 1 <= 2;\<close> yields \<^verbatim>\<open>1\<close> and
  \<^verbatim>\<open>const char *s = "k=v";\<close> yields \<^verbatim>\<open>k\<close>.
\<close>

theorem assignment_rule_takes_last_assign:
  "symbol_from_tokens
     [\<lparr>type = TOKEN_WORD, val = Some ''int''\<rparr>, \<lparr>type = TOKEN_WORD, val = Some ''a''\<rparr>,
      \<lparr>type = TOKEN_ASSIGN, val = Some ''=''\<rparr>, \<lparr>type = TOKEN_WORD, val = Some ''b''\<rparr>,
      \<lparr>type = TOKEN_ASSIGN, val = Some ''=''\<rparr>, \<lparr>type = TOKEN_WORD, val = Some ''c''\<rparr>,
      \<lparr>type = TOKEN_SEMICOLON, val = Some '';''\<rparr>] = Some ''b'' \<and>
   extract_symbols ''int a = b = c;'' None symtab_init = Some [''b''] \<and>
   extract_symbols ''int le = 1 <= 2;'' None symtab_init = Some [''1''] \<and>
   extract_symbols ''const char *s = \"k=v\";'' None symtab_init = Some [''k'']"
  by (simp add: extract_eval stream_eval token_eval symbol_eval)

section \<open>Plain variables\<close>




section \<open>The symbol is a Word of the unit\<close>

text \<open>
  C10. For a non-empty unit the recognizer returns \<^verbatim>\<open>NULL\<close> or the text pointer of a
  token of the unit whose kind is Word.
\<close>

theorem symbol_is_word_of_unit:
  assumes "tokens \<noteq> []"
  shows "symbol_from_tokens tokens = None \<or>
         (\<exists>t \<in> set tokens. type t = TOKEN_WORD \<and> symbol_from_tokens tokens = val t)"
proof -
  let ?n = "int (length tokens)"
  let ?a = "has_assign (scan_tokens tokens (length tokens))"
  let ?P = "\<lambda>r. r = None \<or> (\<exists>t \<in> set tokens. type t = TOKEN_WORD \<and> r = val t)"
  have pick: "?P (val (tokens ! nat j))"
    if "0 \<le> j" and "j < ?n" and "MATCHING_TOKEN tokens j TOKEN_WORD []" for j
    using that by (intro disjI2 bexI [of _ "tokens ! nat j"]) (simp_all add: MATCHING_TOKEN_def)
  have a: "?a \<le> ?n"
    by (rule has_assign_bound)
  have chain: "?P (if c0 then None else if c1 then None else if c2 then v2 else if c3 then v3
                else if c4 then v4 else if c5 then v5 else None)"
    if "c2 \<Longrightarrow> ?P v2" and "c3 \<Longrightarrow> ?P v3" and "c4 \<Longrightarrow> ?P v4" and "c5 \<Longrightarrow> ?P v5"
    for c0 c1 c2 c3 c4 c5 v2 v3 v4 v5
    using that by (simp split: if_split)
  show ?thesis
    unfolding symbol_from_tokens_def Let_def
  proof (rule chain, goal_cases)
    case 1
    then show ?case by (intro pick) auto
  next
    case 2
    with a show ?case by (intro pick) auto
  next
    case 3
    with a show ?case by (intro pick) auto
  next
    case 4
    then show ?case by (intro pick) auto
  qed
qed

theorem symbol_is_word_of_unit_witness:
  "[\<lparr>type = TOKEN_WORD, val = Some ''int''\<rparr>, \<lparr>type = TOKEN_WORD, val = Some ''x''\<rparr>,
    \<lparr>type = TOKEN_SEMICOLON, val = Some '';''\<rparr>] \<noteq> [] \<and>
   (symbol_from_tokens
      [\<lparr>type = TOKEN_WORD, val = Some ''int''\<rparr>, \<lparr>type = TOKEN_WORD, val = Some ''x''\<rparr>,
       \<lparr>type = TOKEN_SEMICOLON, val = Some '';''\<rparr>] = None \<or>
    symbol_from_tokens
      [\<lparr>type = TOKEN_WORD, val = Some ''int''\<rparr>, \<lparr>type = TOKEN_WORD, val = Some ''x''\<rparr>,
       \<lparr>type = TOKEN_SEMICOLON, val = Some '';''\<rparr>] \<in> {Some ''int'', Some ''x''})"
  using symbol_is_word_of_unit
    [of "[\<lparr>type = TOKEN_WORD, val = Some ''int''\<rparr>, \<lparr>type = TOKEN_WORD, val = Some ''x''\<rparr>,
       \<lparr>type = TOKEN_SEMICOLON, val = Some '';''\<rparr>]"]
  by auto

section \<open>Attribute annotations\<close>

text \<open>
  C7. When the tokenizer has room, reads a \<^verbatim>\<open>(\<close> and the block is discarded without
  error while the last token of the unit is the Word \<^verbatim>\<open>__attribute__\<close>, it goes on with
  that Word removed, no block token added, and the ring buffer and the paren flag as they
  were. The declaration \<^verbatim>\<open>int f(void) __attribute__((unused));\<close> becomes the four
  tokens \<^verbatim>\<open>int f ( ;\<close> and yields exactly the symbol \<^verbatim>\<open>f\<close>.
\<close>

theorem attribute_paren_dropped:
  "(int (length pre) + 1 < ntoken \<and>
    fst (input_read inp) = CHR ''('' \<and>
    input_discard_block (snd (input_read inp)) (CHR ''('') = Some (0, in2) \<longrightarrow>
      collect_loop ntoken inp rb
        (pre @ [\<lparr>type = TOKEN_WORD, val = Some ''__attribute__''\<rparr>]) hp =
      collect_loop ntoken in2 rb pre hp) \<and>
   map_option (\<lambda>r. (fst r, fst (snd r)))
     (collect_tokens (input_init ''int f(void) __attribute__((unused));'')
        ringbuf_init MAX_TOKENS) =
     Some (4, [\<lparr>type = TOKEN_WORD, val = Some ''int''\<rparr>,
               \<lparr>type = TOKEN_WORD, val = Some ''f''\<rparr>,
               \<lparr>type = TOKEN_BLOCK, val = Some ''(''\<rparr>,
               \<lparr>type = TOKEN_SEMICOLON, val = Some '';''\<rparr>]) \<and>
   extract_symbols ''int f(void) __attribute__((unused));'' None symtab_init = Some [''f'']"
proof (intro conjI impI)
  assume h: "int (length pre) + 1 < ntoken \<and>
    fst (input_read inp) = CHR ''('' \<and>
    input_discard_block (snd (input_read inp)) (CHR ''('') = Some (0, in2)"
  then show "collect_loop ntoken inp rb
        (pre @ [\<lparr>type = TOKEN_WORD, val = Some ''__attribute__''\<rparr>]) hp =
      collect_loop ntoken in2 rb pre hp"
    by (subst collect_loop.simps) (simp add: Let_def)
next
  show "map_option (\<lambda>r. (fst r, fst (snd r)))
     (collect_tokens (input_init ''int f(void) __attribute__((unused));'')
        ringbuf_init MAX_TOKENS) =
     Some (4, [\<lparr>type = TOKEN_WORD, val = Some ''int''\<rparr>,
               \<lparr>type = TOKEN_WORD, val = Some ''f''\<rparr>,
               \<lparr>type = TOKEN_BLOCK, val = Some ''(''\<rparr>,
               \<lparr>type = TOKEN_SEMICOLON, val = Some '';''\<rparr>])"
    by (simp add: stream_eval token_eval)
next
  show "extract_symbols ''int f(void) __attribute__((unused));'' None symtab_init = Some [''f'']"
    by (simp add: extract_eval stream_eval token_eval symbol_eval)
qed

lemma attribute_block_read:
  "fst (input_read (input_init ''((unused));'')) = CHR ''(''"
  "input_discard_block (snd (input_read (input_init ''((unused));''))) (CHR ''('') =
     Some (0, \<lparr>fd = [], buf = ''((unused));'', len = 11, rd = 10, nxt = CHR 0x00\<rparr>)"
  by (simp_all add: stream_eval token_eval)

theorem attribute_paren_dropped_witness:
  "fst (input_read (input_init ''((unused));'')) = CHR ''('' \<and>
   input_discard_block (snd (input_read (input_init ''((unused));''))) (CHR ''('') =
     Some (0, \<lparr>fd = [], buf = ''((unused));'', len = 11, rd = 10, nxt = CHR 0x00\<rparr>) \<and>
   collect_loop 64 (input_init ''((unused));'') \<lparr>wr = 20\<rparr>
     ([\<lparr>type = TOKEN_WORD, val = Some ''int''\<rparr>, \<lparr>type = TOKEN_WORD, val = Some ''f''\<rparr>,
       \<lparr>type = TOKEN_BLOCK, val = Some ''(''\<rparr>] @
      [\<lparr>type = TOKEN_WORD, val = Some ''__attribute__''\<rparr>]) 1 =
   collect_loop 64 \<lparr>fd = [], buf = ''((unused));'', len = 11, rd = 10, nxt = CHR 0x00\<rparr> \<lparr>wr = 20\<rparr>
     [\<lparr>type = TOKEN_WORD, val = Some ''int''\<rparr>, \<lparr>type = TOKEN_WORD, val = Some ''f''\<rparr>,
      \<lparr>type = TOKEN_BLOCK, val = Some ''(''\<rparr>] 1"
  using attribute_paren_dropped
    [of "[\<lparr>type = TOKEN_WORD, val = Some ''int''\<rparr>, \<lparr>type = TOKEN_WORD, val = Some ''f''\<rparr>,
       \<lparr>type = TOKEN_BLOCK, val = Some ''(''\<rparr>]" 64 "input_init ''((unused));''"
      "\<lparr>fd = [], buf = ''((unused));'', len = 11, rd = 10, nxt = CHR 0x00\<rparr>" "\<lparr>wr = 20\<rparr>" 1]
    attribute_block_read
  by simp

text \<open>
  The flag at work: after an attribute a \<^verbatim>\<open>{\<close> block does not end the unit, after an
  ordinary \<^verbatim>\<open>(\<close> block it does.
\<close>

lemma attribute_paren_not_counted:
  "map_option (\<lambda>r. (fst r, fst (snd r)))
     (collect_tokens (input_init ''a __attribute__((x)) { } b;'') ringbuf_init MAX_TOKENS) =
   Some (4, [\<lparr>type = TOKEN_WORD, val = Some ''a''\<rparr>, \<lparr>type = TOKEN_BLOCK, val = Some ''{''\<rparr>,
             \<lparr>type = TOKEN_WORD, val = Some ''b''\<rparr>, \<lparr>type = TOKEN_SEMICOLON, val = Some '';''\<rparr>])"
  "map_option (\<lambda>r. (fst r, fst (snd r)))
     (collect_tokens (input_init ''a (x) { } b;'') ringbuf_init MAX_TOKENS) =
   Some (3, [\<lparr>type = TOKEN_WORD, val = Some ''a''\<rparr>, \<lparr>type = TOKEN_BLOCK, val = Some ''(''\<rparr>,
             \<lparr>type = TOKEN_BLOCK, val = Some ''{''\<rparr>])"
  by (simp_all add: stream_eval token_eval)

section \<open>Tokenizer failures\<close>

text \<open>
  The failures the tokenizer reports: a quote left open inside a block, more tokens than
  the unit holds, a word that fills the word buffer. Saving a token that fits the word
  buffer never fails, whatever the write offset.
\<close>

lemma collect_tokens_unbalanced_quote:
  "collect_tokens (input_init ''int b[\"x'') ringbuf_init MAX_TOKENS =
     Some (-1, [\<lparr>type = TOKEN_WORD, val = Some ''int''\<rparr>, \<lparr>type = TOKEN_WORD, val = Some ''b''\<rparr>],
           \<lparr>fd = [], buf = ''int b[\"x'', len = 0, rd = 8, nxt = CHR 0x00\<rparr>, \<lparr>wr = 6\<rparr>)"
  by (simp add: stream_eval token_eval)

lemma collect_tokens_capacity_overflow:
  "map_option fst
     (collect_tokens
        (input_init ''================================================================'')
        ringbuf_init MAX_TOKENS) = Some (-1)"
  by (simp add: stream_eval token_eval)

lemma collect_word_loop_full:
  "MAX_TOKEN - 1 \<le> int (length wbuf) \<Longrightarrow> collect_word_loop inp rb wbuf = (None, inp, rb)"
  by simp

lemma ringbuf_save_fits:
  "0 \<le> l \<Longrightarrow> l < MAX_TOKEN \<Longrightarrow> fst (ringbuf_save rb token l) = Some (take (nat l) token)"
  by (simp add: ringbuf_save_def Let_def RINGBUF_SIZE_def MAX_TOKEN_def)

text \<open>
  When \<^verbatim>\<open>collect_tokens\<close> does return -1, as when it returns 0 at the end of the
  input, the loop of \<^verbatim>\<open>extract_symbols\<close> stops and the table is the one collected so
  far.
\<close>

lemma extract_loop_stops:
  assumes "collect_tokens inp rb MAX_TOKENS = Some (r, toks, in1, rb1)" and "r \<le> 0"
  shows "extract_loop re st inp rb = Some st"
  using assms by (subst extract_loop.simps) simp

lemma extract_loop_stops_unbalanced_quote:
  "extract_loop None [''a''] (input_init ''int b[\"x'') ringbuf_init = Some [''a'']"
  by (rule extract_loop_stops [OF collect_tokens_unbalanced_quote]) simp

text \<open>
  C8. The claim is that a failure of the tokenizer, an unbalanced block among those it
  names, ends the scan of the file as the end of the input does, with the symbols found so
  far kept. The code does not on an unbalanced block: there \<^verbatim>\<open>collect_tokens\<close> reports
  no failure, it never returns (\<^verbatim>\<open>input_discard_block\<close> at the end of the stream, as
  under C3), so the loop of \<^verbatim>\<open>extract_symbols\<close> never stops and the symbol \<^verbatim>\<open>a\<close>
  found before the block is never handed over. The same file without the bracket, and the
  same file with a quote left open inside the block, give the table with \<^verbatim>\<open>a\<close>.
\<close>

theorem unbalanced_block_scan_never_stops:
  "extract_symbols ''int a; int b['' None symtab_init = None \<and>
   extract_symbols ''int a; int b'' None symtab_init = Some [''a''] \<and>
   extract_symbols ''int a; int b[\"x'' None symtab_init = Some [''a'']"
proof (intro conjI)
  show "extract_symbols ''int a; int b['' None symtab_init = None"
    by (simp add: extract_eval stream_eval symbol_eval collect_tokens_def collect_loop.simps
        ringbuf_init_def MAX_TOKENS_def WORD_CHAR_def input_collect_word_def ringbuf_save_def
        RINGBUF_SIZE_def MAX_TOKEN_def input_discard_block_at_eof at_eof_def)
next
  show "extract_symbols ''int a; int b'' None symtab_init = Some [''a'']"
    by (simp add: extract_eval stream_eval token_eval symbol_eval)
next
  show "extract_symbols ''int a; int b[\"x'' None symtab_init = Some [''a'']"
    by (simp add: extract_eval stream_eval token_eval symbol_eval)
qed

end
